theory Spec2Isabelle
  imports Complex_Main "HOL-Library.Multiset" "HOL-Library.AList"
begin

section \<open>JavaScript numbers\<close>

text \<open>
  A JavaScript number is an IEEE 754 binary64 value: a finite value, NaN, or one of the
  two infinities. Every arithmetic result is rounded to binary64: to the nearest value
  with a 53-bit significand, a tie going to the even significand, with gradual underflow
  below \<open>2^-1022\<close> and overflow to an infinity from \<open>2^1024\<close> on. The sign of zero
  is not modelled.
\<close>

text \<open>Rounding to the nearest integer, a tie going to the even one.\<close>

definition round_half_even :: "real \<Rightarrow> int" where
  "round_half_even q =
     (let f = \<lfloor>q\<rfloor>; d = q - of_int f
      in if d < 1 / 2 then f else if 1 / 2 < d then f + 1 else if even f then f else f + 1)"

text \<open>
  The binade of a magnitude: the exponent \<open>e\<close> with \<open>2^e \<le> a < 2^(e+1)\<close>, searched
  from the top exponent 1024 down to the least normal exponent -1022 (below it the
  spacing of the values no longer shrinks).
\<close>

definition pow2 :: "int \<Rightarrow> real" where
  "pow2 k = (if 0 \<le> k then 2 ^ nat k else 1 / 2 ^ nat (- k))"

fun binade :: "nat \<Rightarrow> real \<Rightarrow> int" where
  "binade 0 a = - 1022"
| "binade (Suc k) a =
     (if pow2 (int (Suc k) - 1022) \<le> a then int (Suc k) - 1022 else binade k a)"

definition b64_exponent :: "real \<Rightarrow> int" where
  "b64_exponent x = binade 2046 \<bar>x\<bar>"

text \<open>The spacing of binary64 values around \<open>x\<close>, and \<open>x\<close> rounded to that grid.\<close>

definition b64_ulp :: "real \<Rightarrow> real" where
  "b64_ulp x = pow2 (b64_exponent x - 52)"

definition b64 :: "real \<Rightarrow> real" where
  "b64 x = of_int (round_half_even (x / b64_ulp x)) * b64_ulp x"

datatype jsnum = Num real | NaN | PosInf | NegInf

text \<open>The binary64 result of an operation whose exact result is \<open>x\<close>.\<close>

definition fl :: "real \<Rightarrow> jsnum" where
  "fl x = (let y = b64 x
           in if 2 ^ 1024 \<le> y then PosInf else if y \<le> - (2 ^ 1024) then NegInf else Num y)"

text \<open>
  The operators \<open>+\<close>, \<open>-\<close>, \<open>*\<close> and \<open>/\<close>, with the special values of IEEE 754: a
  division of a non-zero value by zero is an infinity, and \<open>0/0\<close>, \<open>Infinity - Infinity\<close>,
  \<open>Infinity/Infinity\<close> and \<open>0 * Infinity\<close> are NaN.
\<close>

fun js_add :: "jsnum \<Rightarrow> jsnum \<Rightarrow> jsnum" where
  "js_add (Num a) (Num b) = fl (a + b)"
| "js_add NaN _ = NaN"
| "js_add _ NaN = NaN"
| "js_add PosInf NegInf = NaN"
| "js_add NegInf PosInf = NaN"
| "js_add PosInf _ = PosInf"
| "js_add NegInf _ = NegInf"
| "js_add _ PosInf = PosInf"
| "js_add _ NegInf = NegInf"

fun js_sub :: "jsnum \<Rightarrow> jsnum \<Rightarrow> jsnum" where
  "js_sub (Num a) (Num b) = fl (a - b)"
| "js_sub NaN _ = NaN"
| "js_sub _ NaN = NaN"
| "js_sub PosInf PosInf = NaN"
| "js_sub NegInf NegInf = NaN"
| "js_sub PosInf _ = PosInf"
| "js_sub NegInf _ = NegInf"
| "js_sub _ PosInf = NegInf"
| "js_sub _ NegInf = PosInf"

fun js_mul :: "jsnum \<Rightarrow> jsnum \<Rightarrow> jsnum" where
  "js_mul (Num a) (Num b) = fl (a * b)"
| "js_mul NaN _ = NaN"
| "js_mul _ NaN = NaN"
| "js_mul PosInf (Num b) = (if b = 0 then NaN else if 0 < b then PosInf else NegInf)"
| "js_mul NegInf (Num b) = (if b = 0 then NaN else if 0 < b then NegInf else PosInf)"
| "js_mul (Num a) PosInf = (if a = 0 then NaN else if 0 < a then PosInf else NegInf)"
| "js_mul (Num a) NegInf = (if a = 0 then NaN else if 0 < a then NegInf else PosInf)"
| "js_mul PosInf PosInf = PosInf"
| "js_mul NegInf NegInf = PosInf"
| "js_mul PosInf NegInf = NegInf"
| "js_mul NegInf PosInf = NegInf"

fun js_div :: "jsnum \<Rightarrow> jsnum \<Rightarrow> jsnum" where
  "js_div (Num a) (Num b) =
     (if b = 0 then (if a = 0 then NaN else if 0 < a then PosInf else NegInf)
      else fl (a / b))"
| "js_div NaN _ = NaN"
| "js_div _ NaN = NaN"
| "js_div (Num a) _ = Num 0"
| "js_div PosInf (Num b) = (if 0 \<le> b then PosInf else NegInf)"
| "js_div NegInf (Num b) = (if 0 \<le> b then NegInf else PosInf)"
| "js_div _ _ = NaN"

text \<open>
  \<open>Math.max\<close> and \<open>Math.min\<close> of a list of arguments: NaN when an argument is NaN,
  minus infinity (plus infinity) for no argument. \<open>Math.round\<close> gives the nearest
  integer, a tie going towards plus infinity. \<open>a || b\<close> is \<open>b\<close> when \<open>a\<close> is zero or
  NaN.
\<close>

fun js_max2 :: "jsnum \<Rightarrow> jsnum \<Rightarrow> jsnum" where
  "js_max2 NaN _ = NaN"
| "js_max2 _ NaN = NaN"
| "js_max2 PosInf _ = PosInf"
| "js_max2 _ PosInf = PosInf"
| "js_max2 NegInf b = b"
| "js_max2 a NegInf = a"
| "js_max2 (Num a) (Num b) = Num (max a b)"

fun js_min2 :: "jsnum \<Rightarrow> jsnum \<Rightarrow> jsnum" where
  "js_min2 NaN _ = NaN"
| "js_min2 _ NaN = NaN"
| "js_min2 NegInf _ = NegInf"
| "js_min2 _ NegInf = NegInf"
| "js_min2 PosInf b = b"
| "js_min2 a PosInf = a"
| "js_min2 (Num a) (Num b) = Num (min a b)"

definition Math_max :: "jsnum list \<Rightarrow> jsnum" where
  "Math_max vs = foldl js_max2 NegInf vs"

definition Math_min :: "jsnum list \<Rightarrow> jsnum" where
  "Math_min vs = foldl js_min2 PosInf vs"

fun Math_round :: "jsnum \<Rightarrow> jsnum" where
  "Math_round (Num v) = Num (of_int \<lfloor>v + 1 / 2\<rfloor>)"
| "Math_round v = v"

fun js_truthy :: "jsnum \<Rightarrow> bool" where
  "js_truthy (Num a) = (a \<noteq> 0)"
| "js_truthy NaN = False"
| "js_truthy _ = True"

definition js_or :: "jsnum \<Rightarrow> jsnum \<Rightarrow> jsnum" where
  "js_or a b = (if js_truthy a then a else b)"

section \<open>Agent trust score (AgentSDK.calculateTrustScore)\<close>

text \<open>
  The TypeScript method
  \<^verbatim>\<open>
  calculateTrustScore(reputationScore: number, totalRequests: number): number {
    const reputationWeight = (reputationScore / 1000) * 70;
    const experienceWeight = Math.min(totalRequests, 100) * 0.3;
    return Math.round(reputationWeight + experienceWeight);
  }
  \<close>
  The literal \<open>0.3\<close> is the binary64 value nearest to 3/10; 1000, 70 and 100 are exact.
\<close>

definition calculateTrustScore :: "jsnum \<Rightarrow> jsnum \<Rightarrow> jsnum" where
  "calculateTrustScore reputationScore totalRequests =
     (let reputationWeight = js_mul (js_div reputationScore (Num 1000)) (Num 70);
          experienceWeight = js_mul (Math_min [totalRequests, Num 100]) (fl (3 / 10))
      in Math_round (js_add reputationWeight experienceWeight))"

text \<open>
  The value the method rounds, for finite arguments in its range, written out: each of
  the division, the two products and the sum rounded to binary64.
\<close>

definition binary64_trust_sum :: "real \<Rightarrow> real \<Rightarrow> real" where
  "binary64_trust_sum r n =
     b64 (b64 (b64 (r / 1000) * 70) + b64 (min n 100 * b64 (3 / 10)))"

section \<open>ELA heatmap canvas (ELAHeatmapVisual)\<close>

text \<open>
  The effect of the component, up to the per-cell normalisation:
  \<^verbatim>\<open>
  if (!canvasRef.current || !heatmap || heatmap.length === 0) return;
  if (Array.isArray(heatmap[0])) { ... flatData = heatmap2D.flat(); }
  else { flatData = heatmap as number[]; ... }
  const max = Math.max(...flatData);
  const min = Math.min(...flatData);
  const range = max - min || 1;
  for (let i = 0; i < flatData.length; i++) {
    const normalized = (flatData[i] - min) / range;
  \<close>
\<close>

datatype heatmap_prop = Flat "jsnum list" | Grid "jsnum list list"

fun heatmap_length :: "heatmap_prop \<Rightarrow> nat" where
  "heatmap_length (Flat vs) = length vs"
| "heatmap_length (Grid rows) = length rows"

fun flatData :: "heatmap_prop \<Rightarrow> jsnum list" where
  "flatData (Flat vs) = vs"
| "flatData (Grid rows) = concat rows"

definition heatmap_range :: "jsnum list \<Rightarrow> jsnum" where
  "heatmap_range vs = js_or (js_sub (Math_max vs) (Math_min vs)) (Num 1)"

definition normalized :: "jsnum list \<Rightarrow> jsnum \<Rightarrow> jsnum" where
  "normalized vs v = js_div (js_sub v (Math_min vs)) (heatmap_range vs)"

definition normalized_cells :: "heatmap_prop \<Rightarrow> jsnum list option" where
  "normalized_cells h =
     (if heatmap_length h = 0 then None
      else Some (map (normalized (flatData h)) (flatData h)))"

fun is_finite :: "jsnum \<Rightarrow> bool" where
  "is_finite (Num a) = True"
| "is_finite _ = False"

fun in_unit_interval :: "jsnum \<Rightarrow> bool" where
  "in_unit_interval (Num a) = (0 \<le> a \<and> a \<le> 1)"
| "in_unit_interval _ = False"

section \<open>Suspicious regions list (ELAHeatmapViewer)\<close>

text \<open>
  The viewer lists the regions it was given with
  \<^verbatim>\<open>
  suspiciousRegions
    .sort((a, b) => b.severity - a.severity)
    .slice(0, 10)
    .map((region, idx) => ( ... ))
  \<close>
  \<open>Array.prototype.sort\<close> is a stable sort (ECMAScript 2019): with a consistent
  comparator its result is the one stable insertion gives, which is how it is written
  here. An element goes before another when the comparator is negative, and keeps its
  place before it when the comparator is zero.
\<close>

record SuspiciousRegion =
  region_x :: real
  region_y :: real
  width :: real
  height :: real
  severity :: real
  mean_error :: real
  max_error :: real

definition by_severity_desc :: "SuspiciousRegion \<Rightarrow> SuspiciousRegion \<Rightarrow> real" where
  "by_severity_desc a b = severity b - severity a"

fun sort_insert :: "('a \<Rightarrow> 'a \<Rightarrow> real) \<Rightarrow> 'a \<Rightarrow> 'a list \<Rightarrow> 'a list" where
  "sort_insert cmp a [] = [a]"
| "sort_insert cmp a (b # bs) =
     (if cmp a b \<le> 0 then a # b # bs else b # sort_insert cmp a bs)"

fun Array_sort :: "('a \<Rightarrow> 'a \<Rightarrow> real) \<Rightarrow> 'a list \<Rightarrow> 'a list" where
  "Array_sort cmp [] = []"
| "Array_sort cmp (a # as) = sort_insert cmp a (Array_sort cmp as)"

definition listed_regions :: "SuspiciousRegion list \<Rightarrow> SuspiciousRegion list" where
  "listed_regions suspiciousRegions = take 10 (Array_sort by_severity_desc suspiciousRegions)"

text \<open>
  The order the specification describes: severity descending, and among regions of
  equal severity the larger area (width times height) first.
\<close>

definition area :: "SuspiciousRegion \<Rightarrow> real" where
  "area r = width r * height r"

definition severity_then_area_order :: "SuspiciousRegion list \<Rightarrow> bool" where
  "severity_then_area_order rs =
     sorted_wrt (\<lambda>a b. severity b < severity a
                      \<or> (severity a = severity b \<and> area b \<le> area a)) rs"

definition small_region :: SuspiciousRegion where
  "small_region = \<lparr>region_x = 0, region_y = 0, width = 1, height = 1, severity = 50,
                    mean_error = 10, max_error = 20\<rparr>"

definition large_region :: SuspiciousRegion where
  "large_region = \<lparr>region_x = 5, region_y = 5, width = 10, height = 10, severity = 50,
                    mean_error = 10, max_error = 20\<rparr>"

section \<open>Progress emitter (progress_emitter.py, as quoted in the fix notes)\<close>

text \<open>
  Python values that can reach the emitter: the four primitive kinds
  (\<open>str\<close>, \<open>int\<close>, \<open>float\<close>, \<open>bool\<close>), \<open>None\<close>, lists and dictionaries.
\<close>

datatype pyval = PNone | PBool bool | PInt int | PFloat real | PStr string
  | PList "pyval list" | PDict "(string \<times> pyval) list"

datatype py_error = TypeError | ValueError | AttributeError | OtherException

fun py_truthy :: "pyval \<Rightarrow> bool" where
  "py_truthy PNone = False"
| "py_truthy (PBool b) = b"
| "py_truthy (PInt i) = (i \<noteq> 0)"
| "py_truthy (PFloat r) = (r \<noteq> 0)"
| "py_truthy (PStr s) = (s \<noteq> [])"
| "py_truthy (PList vs) = (vs \<noteq> [])"
| "py_truthy (PDict kvs) = (kvs \<noteq> [])"

fun isinstance_primitive :: "pyval \<Rightarrow> bool" where
  "isinstance_primitive (PStr s) = True"
| "isinstance_primitive (PInt i) = True"
| "isinstance_primitive (PFloat r) = True"
| "isinstance_primitive (PBool b) = True"
| "isinstance_primitive _ = False"

text \<open>
  The builtins \<open>str\<close> and \<open>int\<close> and the helper \<open>_sanitize_for_firebase\<close> are not
  part of the quoted code; they are parameters of the model. \<open>int\<close> and the helper may
  raise.
\<close>

record py_builtins =
  py_str :: "pyval \<Rightarrow> string"
  py_int :: "pyval \<Rightarrow> py_error + int"
  sanitize_for_firebase :: "pyval \<Rightarrow> py_error + pyval"

text \<open>
  FORENSIC_FIX_SUMMARY.md, the sanitisation of the details:
  \<^verbatim>\<open>
  sanitized_details = None
  if details:
      try:
          sanitized_details = _sanitize_for_firebase(details)
          if isinstance(sanitized_details, dict):
              sanitized_details = {
                  k: str(v) if not isinstance(v, (str, int, float, bool)) else v
                  for k, v in sanitized_details.items()
              }
      except Exception:
          sanitized_details = {'raw': str(details)[:200]}
  \<close>
\<close>

definition coerce_value :: "py_builtins \<Rightarrow> pyval \<Rightarrow> pyval" where
  "coerce_value env v = (if \<not> isinstance_primitive v then PStr (py_str env v) else v)"

definition sanitize_details :: "py_builtins \<Rightarrow> pyval \<Rightarrow> pyval" where
  "sanitize_details env details =
     (if py_truthy details then
        (case sanitize_for_firebase env details of
           Inr (PDict kvs) \<Rightarrow> PDict (map (\<lambda>(k, v). (k, coerce_value env v)) kvs)
         | Inr other \<Rightarrow> other
         | Inl e \<Rightarrow> PDict [(''raw'', PStr (take 200 (py_str env details)))])
      else PNone)"

text \<open>
  REAL_TIME_PROGRESS_FIX.md, the flat update:
  \<^verbatim>\<open>
  update_data = {
      'progress_agent': str(agent),
      'progress_stage': str(stage),
      'progress_message': str(message),
      'progress_percentage': int(progress),
      'progress_timestamp': datetime.utcnow().isoformat(),
      'last_updated': datetime.utcnow().isoformat(),
  }
  if sanitized_details:
      for key, value in sanitized_details.items():
          update_data[f'progress_detail_{key}'] = str(value) if not isinstance(value, (str, int, float, bool)) else value
  self.progress_ref.update(update_data)
  \<close>
  The dictionary is an association list in insertion order; assigning to a key that is
  present replaces its value. The two clock readings are parameters. A truthy
  \<open>sanitized_details\<close> that is not a dictionary has no \<open>items\<close>: the call raises.
  The result is the record handed to \<open>progress_ref.update\<close>.
\<close>

definition add_detail_fields ::
  "py_builtins \<Rightarrow> (string \<times> pyval) list \<Rightarrow> (string \<times> pyval) list \<Rightarrow> (string \<times> pyval) list" where
  "add_detail_fields env items update_data =
     foldl (\<lambda>ud (key, v). AList.update (''progress_detail_'' @ key) (coerce_value env v) ud)
       update_data items"

definition emit_progress ::
  "py_builtins \<Rightarrow> string \<Rightarrow> string \<Rightarrow> pyval \<Rightarrow> pyval \<Rightarrow> pyval \<Rightarrow> pyval \<Rightarrow> pyval
     \<Rightarrow> py_error + (string \<times> pyval) list" where
  "emit_progress env now1 now2 agent stage message progress details =
     (let sanitized_details = sanitize_details env details in
      case py_int env progress of
        Inl e \<Rightarrow> Inl e
      | Inr pct \<Rightarrow>
         (let update_data =
                [(''progress_agent'', PStr (py_str env agent)),
                 (''progress_stage'', PStr (py_str env stage)),
                 (''progress_message'', PStr (py_str env message)),
                 (''progress_percentage'', PInt pct),
                 (''progress_timestamp'', PStr now1),
                 (''last_updated'', PStr now2)]
          in if py_truthy sanitized_details then
               (case sanitized_details of
                  PDict items \<Rightarrow> Inr (add_detail_fields env items update_data)
                | _ \<Rightarrow> Inl AttributeError)
             else Inr update_data))"

definition flat_record :: "(string \<times> pyval) list \<Rightarrow> bool" where
  "flat_record ev = list_all (\<lambda>(k, v). isinstance_primitive v) ev"

text \<open>Sample builtins and a sample call, for a concrete run of the emitter.\<close>

definition sample_builtins :: py_builtins where
  "sample_builtins =
     \<lparr>py_str = (\<lambda>v. case v of PStr s \<Rightarrow> s | PNone \<Rightarrow> ''None''
                      | PBool b \<Rightarrow> (if b then ''True'' else ''False'')
                      | PList [] \<Rightarrow> ''[]'' | PDict [] \<Rightarrow> ''{}'' | _ \<Rightarrow> ''<object>''),
      py_int = (\<lambda>v. case v of PInt i \<Rightarrow> Inr i | PBool b \<Rightarrow> Inr (if b then 1 else 0)
                      | PFloat r \<Rightarrow> Inr (if 0 \<le> r then \<lfloor>r\<rfloor> else \<lceil>r\<rceil>)
                      | _ \<Rightarrow> Inl TypeError),
      sanitize_for_firebase = Inr\<rparr>"

definition sample_details :: pyval where
  "sample_details =
     PDict [(''merchant'', PStr ''OPay''), (''amount'', PStr ''1500000''),
            (''flags'', PList []), (''exif'', PNone)]"

definition sample_event :: "(string \<times> pyval) list" where
  "sample_event =
     [(''progress_agent'', PStr ''forensic''), (''progress_stage'', PStr ''ela_analysis''),
      (''progress_message'', PStr ''Running ELA heatmap analysis...''),
      (''progress_percentage'', PInt 55),
      (''progress_timestamp'', PStr ''2025-11-21T10:00:00''),
      (''last_updated'', PStr ''2025-11-21T10:00:01''),
      (''progress_detail_merchant'', PStr ''OPay''),
      (''progress_detail_amount'', PStr ''1500000''),
      (''progress_detail_flags'', PStr ''[]''),
      (''progress_detail_exif'', PStr ''None'')]"

section \<open>Forensic findings summary (ForensicFindingsDisplay)\<close>

text \<open>
  The summary banner picks its border from the manipulation score:
  \<^verbatim>\<open>
  manipulationScore >= 70 ? 'border-l-red-500'
    : manipulationScore >= 40 ? 'border-l-yellow-500' : 'border-l-green-500'
  \<close>
\<close>

datatype border_class = border_l_red_500 | border_l_yellow_500 | border_l_green_500

definition summary_border :: "real \<Rightarrow> border_class" where
  "summary_border manipulationScore =
     (if manipulationScore \<ge> 70 then border_l_red_500
      else if manipulationScore \<ge> 40 then border_l_yellow_500
      else border_l_green_500)"

section \<open>Forensic verification engine: scorer and run\<close>

text \<open>
  The engine itself (the Python service with forensic_agent.py and orchestrator.py) is
  not among the sources; only its consumers and the project notes are. The definitions of
  this section follow the specification, each marked as such.
\<close>

text \<open>Modelled from the spec: the verdict bands of the data model
  (the engine's verdict synthesis is missing).\<close>

datatype verdict_band = Authentic | Unclear | Suspicious | Fraudulent

text \<open>Modelled from the spec: the band is read off the final score with the fixed
  thresholds 20/40/70, in the order of the project notes: at least 70 fraudulent, at
  least 40 suspicious, at least 20 unclear, below 20 authentic
  (the engine's verdict synthesis is missing).\<close>

definition band_of_score :: "int \<Rightarrow> verdict_band" where
  "band_of_score s =
     (if s \<ge> 70 then Fraudulent
      else if s \<ge> 40 then Suspicious
      else if s \<ge> 20 then Unclear
      else Authentic)"

text \<open>Modelled from the spec: the five differential analyzers of the component design
  (the analyzers are missing).\<close>

datatype detector = ELA | NoisePattern | CompressionArtifact | CloneDetection | EdgeConsistency

text \<open>Modelled from the spec: the error kinds of the error handling design
  (the engine's error types are missing).\<close>

datatype error_kind = DecodeError | AnalyzerError | TimeoutError | Cancelled | AggregationError

text \<open>Modelled from the spec: a detector finding is the detector name, an error map, a
  list of suspicious regions and a scalar confidence; a failed analyzer's finding carries
  an explanatory note (the engine's finding type is missing).\<close>

record DetectorFinding =
  detector_name :: detector
  error_map :: "real list list"
  regions :: "SuspiciousRegion list"
  confidence :: real
  explanatory_note :: "string option"

text \<open>
  The severities and the shape of a forensic finding are those of the interface in
  ForensicFindingsDisplay.tsx:
  \<^verbatim>\<open>
  interface ForensicFinding {
    category: string;
    severity: 'pass' | 'medium' | 'high' | 'critical';
    finding: string;
    explanation: string;
  }
  \<close>
  The category is the detector the finding is about.
\<close>

datatype finding_severity = Pass | Medium | High | Critical

record ForensicFinding =
  category :: detector
  finding_severity :: finding_severity
  finding :: string
  explanation :: string

text \<open>Modelled from the spec: the point budgets of the manipulation scorer: clone
  detection up to 40 points, ELA up to 40, noise inconsistency up to 30, compression
  anomalies up to 20 (the scorer is missing). The specification lists no budget for the
  edge-consistency analyzer.\<close>

definition point_budgets :: "(detector \<times> real) list" where
  "point_budgets =
     [(CloneDetection, 40), (ELA, 40), (NoisePattern, 30), (CompressionArtifact, 20)]"

text \<open>Modelled from the spec: a detector's signal is its finding's confidence,
  normalised to the unit interval; a detector without a finding has signal zero
  (the scorer is missing).\<close>

definition normalized_signal :: "real \<Rightarrow> real" where
  "normalized_signal c = max 0 (min 1 c)"

text \<open>Modelled from the spec: the signal of a detector among the findings of a run: the
  normalised confidence of its finding, zero when it has none (the scorer is missing).\<close>

definition signal_of :: "DetectorFinding list \<Rightarrow> detector \<Rightarrow> real" where
  "signal_of fs d =
     (case find (\<lambda>f. detector_name f = d) fs of
        None \<Rightarrow> 0
      | Some f \<Rightarrow> normalized_signal (confidence f))"

text \<open>Modelled from the spec: each signal is scaled to its own point budget, the
  contributions are summed, and the sum is capped at 100; the reported
  \<open>manipulation_score\<close> is an integer, here the integer part of the capped sum
  (the scorer is missing).\<close>

definition contribution :: "DetectorFinding list \<Rightarrow> detector \<times> real \<Rightarrow> real" where
  "contribution fs bw = snd bw * signal_of fs (fst bw)"

text \<open>Modelled from the spec: the weighted sum of the normalised per-detector signals (the
  scorer is missing).\<close>

definition weighted_sum :: "DetectorFinding list \<Rightarrow> real" where
  "weighted_sum fs = sum_list (map (contribution fs) point_budgets)"

text \<open>Modelled from the spec: the sum capped at 100 (the scorer is missing).\<close>

definition capped_score :: "DetectorFinding list \<Rightarrow> real" where
  "capped_score fs = min 100 (weighted_sum fs)"

text \<open>Modelled from the spec: the integer manipulation score of the result, 0 to 100 (the
  scorer is missing).\<close>

definition manipulation_score_of :: "DetectorFinding list \<Rightarrow> int" where
  "manipulation_score_of fs = \<lfloor>capped_score fs\<rfloor>"

text \<open>Modelled from the spec: the optional context of a request (merchant name, claimed
  amount), which enriches finding text only (the engine's request type is missing).\<close>

record engine_context =
  merchant_name :: "string option"
  claimed_amount :: "string option"

text \<open>Modelled from the spec: an analyzer is a stateless, pure function of the image: it
  returns a finding or fails (the analyzers are missing).\<close>

datatype 'f analyzer_outcome = Finding 'f | Fails

text \<open>Modelled from the spec: the detector configuration of the engine. The parts whose inner
  working the properties below do not depend on are parameters: the image loader
  (normalize, which may fail), the analyzers by detector, the bound of the per-analyzer
  timeout, the region aggregator (whose contract returns a heatmap and regions for every
  list of findings), the reporting thresholds of the finding tiers and the finding
  templates (all of them missing).\<close>

record 'img engine_config =
  normalize :: "nat list \<Rightarrow> nat \<Rightarrow> error_kind + 'img"
  max_dimension :: nat
  analyzers :: "(detector \<times> ('img \<Rightarrow> DetectorFinding analyzer_outcome)) list"
  analyzer_timeout :: nat
  aggregate :: "DetectorFinding list \<Rightarrow> real list list \<times> SuspiciousRegion list"
  reporting_threshold :: real
  high_threshold :: real
  critical_threshold :: real
  finding_text :: "engine_context \<Rightarrow> DetectorFinding \<Rightarrow> string"
  explanation_text :: "engine_context \<Rightarrow> DetectorFinding \<Rightarrow> string"

text \<open>Modelled from the spec: what varies between two runs on the same image with the same
  configuration: the wall-clock time each analyzer needs in this run (the analyzers run
  concurrently and settle in that order), and a run-fatal event raised during the run,
  if any: cancellation by the caller, the run-level timeout, or an aggregation defect
  (the orchestrator is missing).\<close>

record run_environment =
  settle_time :: "detector \<Rightarrow> nat"
  fatal_event :: "error_kind option"

text \<open>Modelled from the spec: the failure policy of the analyzers: a failed or timed-out
  analyzer is recorded as a zero-confidence finding with an explanatory note, and the
  run goes on (the orchestrator is missing).\<close>

fun failure_note :: "error_kind \<Rightarrow> string" where
  "failure_note TimeoutError = ''analyzer timed out: reduced confidence for this detector''"
| "failure_note e = ''analyzer failed: reduced confidence for this detector''"

text \<open>Modelled from the spec: the zero-confidence finding recorded for a failed analyzer (the
  orchestrator is missing).\<close>

definition failed_finding :: "detector \<Rightarrow> error_kind \<Rightarrow> DetectorFinding" where
  "failed_finding d e =
     \<lparr>detector_name = d, error_map = [], regions = [], confidence = 0,
      explanatory_note = Some (failure_note e)\<rparr>"

text \<open>Modelled from the spec: an analyzer is timed out in a run when it needs longer than the
  bounded per-analyzer timeout (the orchestrator is missing).\<close>

definition times_out :: "'img engine_config \<Rightarrow> run_environment \<Rightarrow> detector \<Rightarrow> bool" where
  "times_out cfg env d = (analyzer_timeout cfg < settle_time env d)"

text \<open>Modelled from the spec: running one analyzer under the failure policy: a timed-out
  analyzer is treated as a failed one; a finding is filed under the detector that
  produced it (the orchestrator is missing).\<close>

definition run_analyzer ::
  "'img engine_config \<Rightarrow> run_environment \<Rightarrow> detector
     \<Rightarrow> ('img \<Rightarrow> DetectorFinding analyzer_outcome) \<Rightarrow> 'img \<Rightarrow> DetectorFinding" where
  "run_analyzer cfg env d analyze img =
     (if times_out cfg env d then failed_finding d TimeoutError
      else case analyze img of
             Finding f \<Rightarrow> f\<lparr>detector_name := d\<rparr>
           | Fails \<Rightarrow> failed_finding d AnalyzerError)"

text \<open>Modelled from the spec: the analyzers in the order in which they settle in this run (the
  orchestrator is missing).\<close>

definition settle_order ::
  "'img engine_config \<Rightarrow> run_environment
     \<Rightarrow> (detector \<times> ('img \<Rightarrow> DetectorFinding analyzer_outcome)) list" where
  "settle_order cfg env = sort_key (\<lambda>da. settle_time env (fst da)) (analyzers cfg)"

text \<open>Modelled from the spec: the findings of all analyzers on the loaded image, one per
  analyzer, gathered once all have settled (the orchestrator is missing).\<close>

definition collect_findings ::
  "'img engine_config \<Rightarrow> run_environment \<Rightarrow> 'img \<Rightarrow> DetectorFinding list" where
  "collect_findings cfg env img =
     map (\<lambda>da. run_analyzer cfg env (fst da) (snd da) img) (settle_order cfg env)"

text \<open>Modelled from the spec: findings by template: every detector finding yields one forensic
  finding, of severity pass when its contribution does not exceed the reporting
  threshold, else medium, high or critical by increasing contribution; a recorded
  failure note is the finding's explanation (the scorer is missing).\<close>

definition detector_contribution :: "DetectorFinding list \<Rightarrow> detector \<Rightarrow> real" where
  "detector_contribution fs d =
     (case map_of point_budgets d of None \<Rightarrow> 0 | Some w \<Rightarrow> contribution fs (d, w))"

text \<open>Modelled from the spec: the severity tier of a contribution (the scorer is missing).\<close>

definition contribution_tier :: "'img engine_config \<Rightarrow> real \<Rightarrow> finding_severity" where
  "contribution_tier cfg c =
     (if c \<le> reporting_threshold cfg then Pass
      else if c < high_threshold cfg then Medium
      else if c < critical_threshold cfg then High
      else Critical)"

text \<open>Modelled from the spec: the forensic finding generated for a detector finding (the
  scorer is missing).\<close>

definition forensic_finding ::
  "'img engine_config \<Rightarrow> engine_context \<Rightarrow> DetectorFinding list \<Rightarrow> DetectorFinding
     \<Rightarrow> ForensicFinding" where
  "forensic_finding cfg ctx fs f =
     \<lparr>category = detector_name f,
      finding_severity = contribution_tier cfg (detector_contribution fs (detector_name f)),
      finding = finding_text cfg ctx f,
      explanation = (case explanatory_note f of
                       Some n \<Rightarrow> n
                     | None \<Rightarrow> explanation_text cfg ctx f)\<rparr>"

text \<open>Modelled from the spec: the terminal result of a run: manipulation score, verdict band,
  heatmap, suspicious regions and findings (the engine's result type is missing).\<close>

record engine_result =
  manipulation_score :: int
  verdict_band :: verdict_band
  heatmap :: "real list list"
  suspicious_regions :: "SuspiciousRegion list"
  findings :: "ForensicFinding list"

text \<open>Modelled from the spec: a run loads the image, runs the analyzers, aggregates, scores,
  and completes; a loader error or a run-fatal event ends it with the failure result and
  no score; an analyzer failure does not (the orchestrator is missing).\<close>

definition run_analysis ::
  "'img engine_config \<Rightarrow> run_environment \<Rightarrow> engine_context \<Rightarrow> nat list
     \<Rightarrow> error_kind + engine_result" where
  "run_analysis cfg env ctx bytes =
     (case normalize cfg bytes (max_dimension cfg) of
        Inl e \<Rightarrow> Inl e
      | Inr img \<Rightarrow>
          (case fatal_event env of
             Some e \<Rightarrow> Inl e
           | None \<Rightarrow>
               (let fs = collect_findings cfg env img;
                    (hm, rs) = aggregate cfg fs
                in Inr \<lparr>manipulation_score = manipulation_score_of fs,
                        verdict_band = band_of_score (manipulation_score_of fs),
                        heatmap = hm, suspicious_regions = rs,
                        findings = map (forensic_finding cfg ctx fs) fs\<rparr>)))"

text \<open>Modelled from the spec: the states of a run (the orchestrator is missing).\<close>

datatype run_state = CREATED | LOADING | ANALYZING | AGGREGATING | SCORING | COMPLETE | FAILED

text \<open>Modelled from the spec: the terminal state of a run: COMPLETE with a result, FAILED with
  a failure result (the orchestrator is missing).\<close>

definition final_state :: "error_kind + engine_result \<Rightarrow> run_state" where
  "final_state outcome = (case outcome of Inr r \<Rightarrow> COMPLETE | Inl e \<Rightarrow> FAILED)"

text \<open>
  A sample configuration (two analyzers report, one fails) and three sample runs: every
  analyzer settles in time; the clone detector settles last, still in time; the clone
  detector exceeds the timeout.
\<close>

definition sample_finding :: "detector \<Rightarrow> real \<Rightarrow> DetectorFinding" where
  "sample_finding d c =
     \<lparr>detector_name = d, error_map = [], regions = [], confidence = c,
      explanatory_note = None\<rparr>"

definition sample_config :: "(nat list) engine_config" where
  "sample_config =
     \<lparr>normalize = (\<lambda>bytes m. if bytes = [] then Inl DecodeError else Inr (take m bytes)),
      max_dimension = 4,
      analyzers =
        [(ELA, \<lambda>img. Finding (sample_finding ELA (1 / 2))),
         (CloneDetection, \<lambda>img. Finding (sample_finding CloneDetection 1)),
         (NoisePattern, \<lambda>img. Fails)],
      analyzer_timeout = 5000,
      aggregate = (\<lambda>fs. ([], concat (map regions fs))),
      reporting_threshold = 5, high_threshold = 15, critical_threshold = 30,
      finding_text = (\<lambda>ctx f. case merchant_name ctx of Some m \<Rightarrow> m | None \<Rightarrow> ''receipt''),
      explanation_text = (\<lambda>ctx f. ''no anomaly'')\<rparr>"

definition all_in_time :: run_environment where
  "all_in_time = \<lparr>settle_time = (\<lambda>d. 100), fatal_event = None\<rparr>"

definition clone_in_time_last :: run_environment where
  "clone_in_time_last =
     \<lparr>settle_time = (\<lambda>d. if d = CloneDetection then 4000 else 100), fatal_event = None\<rparr>"

definition clone_times_out :: run_environment where
  "clone_times_out =
     \<lparr>settle_time = (\<lambda>d. if d = CloneDetection then 9000 else 100), fatal_event = None\<rparr>"

definition sample_bytes :: "nat list" where
  "sample_bytes = [137, 80, 78, 71]"

definition sample_context :: engine_context where
  "sample_context = \<lparr>merchant_name = Some ''OPay'', claimed_amount = Some ''1500''\<rparr>"

definition no_context :: engine_context where
  "no_context = \<lparr>merchant_name = None, claimed_amount = None\<rparr>"

section \<open>Properties\<close>

subsection \<open>Binary64 rounding\<close>

lemma rhe_bounds: "\<lfloor>q\<rfloor> \<le> round_half_even q \<and> round_half_even q \<le> \<lfloor>q\<rfloor> + 1"
  by (simp add: round_half_even_def Let_def)

lemma rhe_of_int [simp]: "round_half_even (of_int k) = k"
  by (simp add: round_half_even_def Let_def)

lemma rhe_numeral [simp]: "round_half_even (numeral n) = numeral n"
  using rhe_of_int [of "numeral n"] by simp

lemma rhe_zero [simp]: "round_half_even 0 = 0"
  using rhe_of_int [of 0] by simp

lemma rhe_le_ceiling: "round_half_even q \<le> \<lceil>q\<rceil>"
proof (cases "q = of_int \<lfloor>q\<rfloor>")
  case True
  then have "round_half_even q = \<lfloor>q\<rfloor>" by (metis rhe_of_int)
  then show ?thesis by (simp add: floor_le_ceiling)
next
  case False
  then have "\<lceil>q\<rceil> = \<lfloor>q\<rfloor> + 1" by (simp add: ceiling_altdef)
  with rhe_bounds [of q] show ?thesis by simp
qed

lemma rhe_mono: "q \<le> q' \<Longrightarrow> round_half_even q \<le> round_half_even q'"
proof -
  assume le: "q \<le> q'"
  have fl: "\<lfloor>q\<rfloor> \<le> \<lfloor>q'\<rfloor>" using le by (rule floor_mono)
  show ?thesis
  proof (cases "\<lfloor>q\<rfloor> = \<lfloor>q'\<rfloor>")
    case True
    then show ?thesis using le by (auto simp: round_half_even_def Let_def)
  next
    case False
    with fl have "\<lfloor>q\<rfloor> + 1 \<le> \<lfloor>q'\<rfloor>" by simp
    with rhe_bounds [of q] rhe_bounds [of q'] show ?thesis by linarith
  qed
qed

lemma pow2_powr: "pow2 k = 2 powr of_int k"
  by (simp add: pow2_def powr_int)

lemma pow2_pos: "0 < pow2 k"
  by (simp add: pow2_powr)

lemma pow2_add: "pow2 (a + b) = pow2 a * pow2 b"
  by (simp add: pow2_powr powr_add)

lemma pow2_mono: "a \<le> b \<Longrightarrow> pow2 a \<le> pow2 b"
  by (simp add: pow2_powr)

lemma binade_ge: "- 1022 \<le> binade k a"
  by (induction k) auto

lemma binade_le: "binade k a \<le> int k - 1022"
  by (induction k) auto

lemma binade_lower: "- 1022 < binade k a \<Longrightarrow> pow2 (binade k a) \<le> a"
  by (induction k) (auto split: if_splits)

lemma binade_upper: "binade k a < int k - 1022 \<Longrightarrow> a < pow2 (binade k a + 1)"
proof (induction k)
  case 0
  then show ?case by simp
next
  case (Suc k)
  show ?case
  proof (cases "pow2 (int (Suc k) - 1022) \<le> a")
    case True
    then have "binade (Suc k) a = int (Suc k) - 1022" by simp
    with Suc.prems show ?thesis by linarith
  next
    case False
    then have eq: "binade (Suc k) a = binade k a" by simp
    show ?thesis
    proof (cases "binade k a < int k - 1022")
      case True
      from Suc.IH [OF this] show ?thesis by (simp only: eq)
    next
      case F: False
      with binade_le [of k a] have "binade k a = int k - 1022" by simp
      then have "binade k a + 1 = int (Suc k) - 1022" by simp
      with False show ?thesis by (simp only: eq)
    qed
  qed
qed

lemma binade_mono: "a \<le> b \<Longrightarrow> binade k a \<le> binade k b"
proof (induction k)
  case 0
  then show ?case by simp
next
  case (Suc k)
  then show ?case using binade_le [of k a] by auto
qed

lemma binade_eq:
  assumes "- 1022 \<le> e" and "e \<le> int k - 1022"
    and "e = - 1022 \<or> pow2 e \<le> a" and "a < pow2 (e + 1)"
  shows "binade k a = e"
proof (rule antisym)
  show "binade k a \<le> e"
  proof (rule ccontr)
    assume "\<not> binade k a \<le> e"
    then have lt: "e + 1 \<le> binade k a" by simp
    with assms(1) have "- 1022 < binade k a" by simp
    from binade_lower [OF this] have "pow2 (binade k a) \<le> a" .
    with pow2_mono [OF lt] assms(4) show False by simp
  qed
  show "e \<le> binade k a"
  proof (rule ccontr)
    assume "\<not> e \<le> binade k a"
    then have lt: "binade k a + 1 \<le> e" by simp
    with assms(2) have "binade k a < int k - 1022" by simp
    from binade_upper [OF this] have up: "a < pow2 (binade k a + 1)" .
    from lt binade_ge [of k a] have "e \<noteq> - 1022" by simp
    with assms(3) have "pow2 e \<le> a" by simp
    with pow2_mono [OF lt] up show False by simp
  qed
qed

lemma b64_ulp_pos: "0 < b64_ulp x"
  by (simp add: b64_ulp_def pow2_pos)

lemma b64_zero [simp]: "b64 0 = 0"
  by (simp add: b64_def)

lemma pow2_split53: "pow2 (e + 1) = 2 ^ 53 * pow2 (e - 52)"
proof -
  have "e + 1 = 53 + (e - 52)" by simp
  then have "pow2 (e + 1) = pow2 (53 + (e - 52))" by (rule arg_cong)
  also have "\<dots> = pow2 53 * pow2 (e - 52)" by (simp only: pow2_add)
  finally show ?thesis by (simp add: pow2_def)
qed

lemma pow2_split52: "pow2 e = 2 ^ 52 * pow2 (e - 52)"
proof -
  have "e = 52 + (e - 52)" by simp
  then have "pow2 e = pow2 (52 + (e - 52))" by (rule arg_cong)
  also have "\<dots> = pow2 52 * pow2 (e - 52)" by (simp only: pow2_add)
  finally show ?thesis by (simp add: pow2_def)
qed

lemma b64_le_next_power:
  assumes "0 \<le> x" "x < pow2 (b64_exponent x + 1)"
  shows "b64 x \<le> pow2 (b64_exponent x + 1)"
proof -
  let ?u = "b64_ulp x"
  have u: "0 < ?u" by (rule b64_ulp_pos)
  have pw: "pow2 (b64_exponent x + 1) = 2 ^ 53 * ?u"
    unfolding b64_ulp_def by (rule pow2_split53)
  have "x / ?u \<le> 2 ^ 53" using assms(2) u by (simp add: pw pos_divide_le_eq)
  then have "x / ?u \<le> real_of_int (2 ^ 53)" by simp
  then have "\<lceil>x / ?u\<rceil> \<le> 2 ^ 53" by (simp only: ceiling_le_iff)
  then have "round_half_even (x / ?u) \<le> 2 ^ 53" using rhe_le_ceiling [of "x / ?u"] by linarith
  then have "real_of_int (round_half_even (x / ?u)) \<le> real_of_int (2 ^ 53)"
    by (simp only: of_int_le_iff)
  then have "real_of_int (round_half_even (x / ?u)) \<le> 2 ^ 53" by simp
  then have "real_of_int (round_half_even (x / ?u)) * ?u \<le> 2 ^ 53 * ?u"
    using u by (simp add: mult_right_mono)
  then show ?thesis by (simp add: b64_def pw)
qed

lemma b64_ge_power:
  assumes "pow2 (b64_exponent x) \<le> x"
  shows "pow2 (b64_exponent x) \<le> b64 x"
proof -
  let ?u = "b64_ulp x"
  have u: "0 < ?u" by (rule b64_ulp_pos)
  have pw: "pow2 (b64_exponent x) = 2 ^ 52 * ?u"
    unfolding b64_ulp_def by (rule pow2_split52)
  have "2 ^ 52 \<le> x / ?u" using assms u by (simp add: pw pos_le_divide_eq)
  then have "real_of_int (2 ^ 52) \<le> x / ?u" by simp
  then have "2 ^ 52 \<le> \<lfloor>x / ?u\<rfloor>" by (simp only: le_floor_iff)
  then have "2 ^ 52 \<le> round_half_even (x / ?u)" using rhe_bounds [of "x / ?u"] by linarith
  then have "real_of_int (2 ^ 52) \<le> real_of_int (round_half_even (x / ?u))"
    by (simp only: of_int_le_iff)
  then have "2 ^ 52 \<le> real_of_int (round_half_even (x / ?u))" by simp
  then have "2 ^ 52 * ?u \<le> real_of_int (round_half_even (x / ?u)) * ?u"
    using u by (simp add: mult_right_mono)
  then show ?thesis by (simp add: b64_def pw)
qed

lemma b64_mono:
  assumes "0 \<le> x" "x \<le> y"
  shows "b64 x \<le> b64 y"
proof (cases "b64_exponent x = b64_exponent y")
  case True
  then have u: "b64_ulp x = b64_ulp y" by (simp add: b64_ulp_def)
  have "x / b64_ulp y \<le> y / b64_ulp y" using assms b64_ulp_pos [of y] by (simp add: divide_right_mono)
  then have "round_half_even (x / b64_ulp y) \<le> round_half_even (y / b64_ulp y)" by (rule rhe_mono)
  then have "real_of_int (round_half_even (x / b64_ulp y)) * b64_ulp y
      \<le> real_of_int (round_half_even (y / b64_ulp y)) * b64_ulp y"
    using b64_ulp_pos [of y] by (simp add: mult_right_mono)
  then show ?thesis by (simp add: b64_def u)
next
  case False
  have "b64_exponent x \<le> b64_exponent y"
    unfolding b64_exponent_def using assms by (intro binade_mono) simp
  with False have lt: "b64_exponent x < b64_exponent y" by simp
  have y: "0 \<le> y" using assms by simp
  have "- 1022 \<le> b64_exponent x" by (simp add: b64_exponent_def binade_ge)
  with lt have "- 1022 < binade 2046 \<bar>y\<bar>" by (simp add: b64_exponent_def)
  from binade_lower [OF this] y have "pow2 (b64_exponent y) \<le> y" by (simp add: b64_exponent_def)
  from b64_ge_power [OF this] have ge: "pow2 (b64_exponent y) \<le> b64 y" .
  have "b64_exponent y \<le> int 2046 - 1022" unfolding b64_exponent_def by (rule binade_le)
  with lt have "binade 2046 \<bar>x\<bar> < int 2046 - 1022" by (simp add: b64_exponent_def)
  from binade_upper [OF this] assms(1) have "x < pow2 (b64_exponent x + 1)"
    by (simp add: b64_exponent_def)
  from b64_le_next_power [OF assms(1) this] have le: "b64 x \<le> pow2 (b64_exponent x + 1)" .
  have "pow2 (b64_exponent x + 1) \<le> pow2 (b64_exponent y)" using lt by (intro pow2_mono) simp
  with le ge show ?thesis by linarith
qed

lemma b64_nonneg: "0 \<le> x \<Longrightarrow> 0 \<le> b64 x"
  using b64_mono [of 0 x] by simp

lemma b64_eval:
  assumes "- 1022 \<le> e" and "e \<le> 1024"
    and "e = - 1022 \<or> pow2 e \<le> \<bar>x\<bar>" and "\<bar>x\<bar> < pow2 (e + 1)"
  shows "b64 x = of_int (round_half_even (x / pow2 (e - 52))) * pow2 (e - 52)"
proof -
  have "binade 2046 \<bar>x\<bar> = e" using assms by (intro binade_eq) simp_all
  then show ?thesis by (simp add: b64_def b64_ulp_def b64_exponent_def)
qed

lemma b64_1: "b64 1 = 1"
  using b64_eval [of 0 1] by (simp add: pow2_def)

lemma b64_70: "b64 70 = 70"
  using b64_eval [of 6 70] by (simp add: pow2_def)

lemma b64_100: "b64 100 = 100"
  using b64_eval [of 6 100] by (simp add: pow2_def)

lemma b64_3_10: "b64 (3 / 10) = 5404319552844595 / 2 ^ 54"
  using b64_eval [of "- 2" "3 / 10"] by (simp add: pow2_def round_half_even_def Let_def)

lemma b64_30: "b64 (100 * (5404319552844595 / 2 ^ 54)) = 30"
  using b64_eval [of 4 "100 * (5404319552844595 / 2 ^ 54)"]
  by (simp add: pow2_def round_half_even_def Let_def)

lemma fl_Num: "- (2 ^ 1024) < b64 x \<Longrightarrow> b64 x < 2 ^ 1024 \<Longrightarrow> fl x = Num (b64 x)"
  by (simp add: fl_def Let_def)

lemma fl_bounded:
  assumes "0 \<le> x" "x \<le> c" "b64 c = c" "c < 2 ^ 1024"
  shows "fl x = Num (b64 x) \<and> 0 \<le> b64 x \<and> b64 x \<le> c"
proof -
  have lo: "0 \<le> b64 x" using assms(1) by (rule b64_nonneg)
  have hi: "b64 x \<le> c" using b64_mono [OF assms(1,2)] assms(3) by simp
  have "- (2 ^ 1024) < (0::real)" by simp
  with lo have "- (2 ^ 1024) < b64 x" by linarith
  moreover from hi assms(4) have "b64 x < 2 ^ 1024" by linarith
  ultimately show ?thesis using lo hi by (simp add: fl_Num)
qed

subsection \<open>Trust score\<close>

lemma trust_parts:
  assumes "0 \<le> r" "r \<le> 1000" "0 \<le> n"
  shows "js_mul (js_div (Num r) (Num 1000)) (Num 70) = Num (b64 (b64 (r / 1000) * 70))"
    and "0 \<le> b64 (b64 (r / 1000) * 70)" and "b64 (b64 (r / 1000) * 70) \<le> 70"
    and "js_mul (Math_min [Num n, Num 100]) (fl (3 / 10)) = Num (b64 (min n 100 * b64 (3 / 10)))"
    and "0 \<le> b64 (min n 100 * b64 (3 / 10))" and "b64 (min n 100 * b64 (3 / 10)) \<le> 30"
proof -
  have q: "0 \<le> r / 1000" "r / 1000 \<le> 1" using assms by simp_all
  from fl_bounded [OF q b64_1] have d: "fl (r / 1000) = Num (b64 (r / 1000))"
    "0 \<le> b64 (r / 1000)" "b64 (r / 1000) \<le> 1" by simp_all
  have p: "0 \<le> b64 (r / 1000) * 70" "b64 (r / 1000) * 70 \<le> 70" using d(2,3) by simp_all
  from fl_bounded [OF p b64_70] have m: "fl (b64 (r / 1000) * 70) = Num (b64 (b64 (r / 1000) * 70))"
    "0 \<le> b64 (b64 (r / 1000) * 70)" "b64 (b64 (r / 1000) * 70) \<le> 70" by simp_all
  show "js_mul (js_div (Num r) (Num 1000)) (Num 70) = Num (b64 (b64 (r / 1000) * 70))"
    by (simp add: d(1) m(1))
  show "0 \<le> b64 (b64 (r / 1000) * 70)" by (rule m(2))
  show "b64 (b64 (r / 1000) * 70) \<le> 70" by (rule m(3))
  have c: "fl (3 / 10) = Num (b64 (3 / 10))" by (simp add: fl_def Let_def b64_3_10)
  have cpos: "0 \<le> b64 (3 / 10)" by (simp add: b64_3_10)
  have e: "0 \<le> min n 100 * b64 (3 / 10)" using assms(3) cpos by simp
  have "min n 100 * b64 (3 / 10) \<le> 100 * b64 (3 / 10)" using cpos by (simp add: mult_right_mono)
  then have e': "min n 100 * b64 (3 / 10) \<le> 100 * (5404319552844595 / 2 ^ 54)"
    by (simp add: b64_3_10)
  have "b64 (min n 100 * b64 (3 / 10)) \<le> b64 (100 * (5404319552844595 / 2 ^ 54))"
    using e e' by (rule b64_mono)
  then have hi: "b64 (min n 100 * b64 (3 / 10)) \<le> 30" by (simp only: b64_30)
  have lo: "0 \<le> b64 (min n 100 * b64 (3 / 10))" using e by (rule b64_nonneg)
  have "(30::real) < 2 ^ 1024" by simp
  with hi have hi': "b64 (min n 100 * b64 (3 / 10)) < 2 ^ 1024" by linarith
  have "- (2 ^ 1024) < (0::real)" by simp
  with lo have lo': "- (2 ^ 1024) < b64 (min n 100 * b64 (3 / 10))" by linarith
  have "fl (min n 100 * b64 (3 / 10)) = Num (b64 (min n 100 * b64 (3 / 10)))"
    using lo' hi' by (rule fl_Num)
  then show "js_mul (Math_min [Num n, Num 100]) (fl (3 / 10))
      = Num (b64 (min n 100 * b64 (3 / 10)))"
    by (simp add: Math_min_def c)
  show "0 \<le> b64 (min n 100 * b64 (3 / 10))" by (rule lo)
  show "b64 (min n 100 * b64 (3 / 10)) \<le> 30" by (rule hi)
qed

lemma calculateTrustScore_eval:
  assumes "0 \<le> r" "r \<le> 1000" "0 \<le> n"
  shows "calculateTrustScore (Num r) (Num n) = Num (of_int \<lfloor>binary64_trust_sum r n + 1 / 2\<rfloor>)"
    and "0 \<le> binary64_trust_sum r n" and "binary64_trust_sum r n \<le> 100"
proof -
  note p = trust_parts [OF assms]
  have s: "0 \<le> b64 (b64 (r / 1000) * 70) + b64 (min n 100 * b64 (3 / 10))"
    "b64 (b64 (r / 1000) * 70) + b64 (min n 100 * b64 (3 / 10)) \<le> 100"
    using p(2,3,5,6) by linarith+
  from fl_bounded [OF s b64_100]
  have f: "fl (b64 (b64 (r / 1000) * 70) + b64 (min n 100 * b64 (3 / 10)))
      = Num (binary64_trust_sum r n)"
    "0 \<le> binary64_trust_sum r n" "binary64_trust_sum r n \<le> 100"
    by (simp_all add: binary64_trust_sum_def)
  have "calculateTrustScore (Num r) (Num n)
      = Math_round (js_add (Num (b64 (b64 (r / 1000) * 70)))
          (Num (b64 (min n 100 * b64 (3 / 10)))))"
    unfolding calculateTrustScore_def Let_def by (simp only: p(1) p(4))
  then show "calculateTrustScore (Num r) (Num n)
      = Num (of_int \<lfloor>binary64_trust_sum r n + 1 / 2\<rfloor>)"
    by (simp add: f(1))
  show "0 \<le> binary64_trust_sum r n" by (rule f(2))
  show "binary64_trust_sum r n \<le> 100" by (rule f(3))
qed

lemma binary64_trust_sum_mono:
  assumes "0 \<le> r" "r \<le> r'" "0 \<le> n" "n \<le> n'"
  shows "binary64_trust_sum r n \<le> binary64_trust_sum r' n'"
proof -
  have cpos: "0 \<le> b64 (3 / 10)" by (simp add: b64_3_10)
  have a1: "b64 (r / 1000) \<le> b64 (r' / 1000)" using assms(1,2) by (intro b64_mono) simp_all
  have a0: "0 \<le> b64 (r / 1000)" using assms(1) by (intro b64_nonneg) simp
  have a2: "b64 (b64 (r / 1000) * 70) \<le> b64 (b64 (r' / 1000) * 70)"
    using a0 a1 by (intro b64_mono) simp_all
  have a3: "0 \<le> b64 (b64 (r / 1000) * 70)" using a0 by (intro b64_nonneg) simp
  have b0: "0 \<le> min n 100 * b64 (3 / 10)" using assms(3) cpos by simp
  have "min n 100 \<le> min n' 100" using assms(4) by simp
  then have b1: "min n 100 * b64 (3 / 10) \<le> min n' 100 * b64 (3 / 10)"
    using cpos by (rule mult_right_mono)
  have b2: "b64 (min n 100 * b64 (3 / 10)) \<le> b64 (min n' 100 * b64 (3 / 10))"
    using b0 b1 by (rule b64_mono)
  have b3: "0 \<le> b64 (min n 100 * b64 (3 / 10))" using b0 by (rule b64_nonneg)
  show ?thesis unfolding binary64_trust_sum_def
    using a2 a3 b2 b3 by (intro b64_mono) linarith+
qed

lemma trust_sum_10_36: "binary64_trust_sum 10 36 = 6473924464345087 / 2 ^ 49"
proof -
  have a: "b64 (10 / 1000) = 5764607523034235 / 2 ^ 59"
    using b64_eval [of "- 7" "10 / 1000"] by (simp add: pow2_def round_half_even_def Let_def)
  have b: "b64 (5764607523034235 / 2 ^ 59 * 70) = 6305039478318695 / 2 ^ 53"
    using b64_eval [of "- 1" "5764607523034235 / 2 ^ 59 * 70"]
    by (simp add: pow2_def round_half_even_def Let_def)
  have c: "b64 (36 * (5404319552844595 / 2 ^ 54)) = 6079859496950169 / 2 ^ 49"
    using b64_eval [of 3 "36 * (5404319552844595 / 2 ^ 54)"]
    by (simp add: pow2_def round_half_even_def Let_def)
  have d: "b64 (6305039478318695 / 2 ^ 53 + 6079859496950169 / 2 ^ 49) = 6473924464345087 / 2 ^ 49"
    using b64_eval [of 3 "6305039478318695 / 2 ^ 53 + 6079859496950169 / 2 ^ 49"]
    by (simp add: pow2_def round_half_even_def Let_def)
  have m: "min (36::real) 100 = 36" by simp
  show ?thesis unfolding binary64_trust_sum_def m b64_3_10 a b c d by (rule refl)
qed

lemma trust_score_10_36: "calculateTrustScore (Num 10) (Num 36) = Num 11"
proof -
  have "\<lfloor>(6473924464345087 / 2 ^ 49 + 1 / 2 :: real)\<rfloor> = 11" by (simp add: floor_eq_iff)
  then show ?thesis
    using calculateTrustScore_eval(1) [of 10 36] by (simp add: trust_sum_10_36)
qed


lemma trust_sum_500_50: "binary64_trust_sum 500 50 = 50"
proof -
  have a: "b64 (500 / 1000) = 1 / 2"
    using b64_eval [of "- 1" "500 / 1000"] by (simp add: pow2_def)
  have b: "b64 (1 / 2 * 70) = 35"
    using b64_eval [of 5 "1 / 2 * 70"] by (simp add: pow2_def)
  have c: "b64 (50 * (5404319552844595 / 2 ^ 54)) = 15"
    using b64_eval [of 3 "50 * (5404319552844595 / 2 ^ 54)"]
    by (simp add: pow2_def round_half_even_def Let_def)
  have d: "b64 (35 + 15) = 50"
    using b64_eval [of 5 "35 + 15"] by (simp add: pow2_def)
  have m: "min (50::real) 100 = 50" by simp
  show ?thesis unfolding binary64_trust_sum_def m b64_3_10 a b c d by (rule refl)
qed


subsection \<open>Heatmap normalisation\<close>

lemma foldl_max_Num:
  "foldl js_max2 (Num a) (map Num xs) = Num (fold max xs a)"
  by (induction xs arbitrary: a) (simp_all add: max.commute)

lemma foldl_min_Num:
  "foldl js_min2 (Num a) (map Num xs) = Num (fold min xs a)"
  by (induction xs arbitrary: a) (simp_all add: min.commute)

lemma Math_max_Num: "Math_max (map Num (x # xs)) = Num (Max (set (x # xs)))"
  unfolding Math_max_def using Max.set_eq_fold [of x xs] by (simp add: foldl_max_Num)

lemma Math_min_Num: "Math_min (map Num (x # xs)) = Num (Min (set (x # xs)))"
  unfolding Math_min_def using Min.set_eq_fold [of x xs] by (simp add: foldl_min_Num)

lemma all_finite_map: "list_all is_finite vs \<Longrightarrow> \<exists>xs. vs = map Num xs"
proof (induction vs)
  case Nil then show ?case by simp
next
  case (Cons v vs)
  then obtain xs where "vs = map Num xs" by auto
  moreover from Cons.prems obtain a where "v = Num a" by (cases v) auto
  ultimately have "v # vs = map Num (a # xs)" by simp
  then show ?case by (rule exI)
qed

lemma fl_finite:
  assumes "is_finite (fl y)"
  shows "fl y = Num (b64 y) \<and> - (2 ^ 1024) < b64 y \<and> b64 y < 2 ^ 1024"
  using assms by (auto simp: fl_def Let_def split: if_splits)

lemma fl_between:
  assumes "0 \<le> x" "x \<le> y" "b64 y < 2 ^ 1024"
  shows "fl x = Num (b64 x) \<and> 0 \<le> b64 x \<and> b64 x \<le> b64 y"
proof -
  have lo: "0 \<le> b64 x" using assms(1) by (rule b64_nonneg)
  have hi: "b64 x \<le> b64 y" using assms(1,2) by (rule b64_mono)
  have "- (2 ^ 1024) < (0::real)" by simp
  with lo have "- (2 ^ 1024) < b64 x" by linarith
  moreover from hi assms(3) have "b64 x < 2 ^ 1024" by linarith
  ultimately show ?thesis using lo hi by (simp add: fl_Num)
qed

lemma heatmap_range_nonzero: "heatmap_range vs \<noteq> Num 0"
proof (cases "js_truthy (js_sub (Math_max vs) (Math_min vs))")
  case True
  then have "js_sub (Math_max vs) (Math_min vs) \<noteq> Num 0" by auto
  with True show ?thesis by (simp add: heatmap_range_def js_or_def)
next
  case False
  then show ?thesis by (simp add: heatmap_range_def js_or_def)
qed

lemma normalized_unit:
  assumes "x \<in> set xs"
    and "is_finite (js_sub (Math_max (map Num xs)) (Math_min (map Num xs)))"
  shows "in_unit_interval (normalized (map Num xs) (Num x))"
proof -
  from assms(1) obtain y ys where xs: "xs = y # ys" by (cases xs) auto
  let ?M = "Max (set xs)" and ?m = "Min (set xs)"
  have mx: "Math_max (map Num xs) = Num ?M" using Math_max_Num [of y ys] by (simp add: xs)
  have mn: "Math_min (map Num xs) = Num ?m" using Math_min_Num [of y ys] by (simp add: xs)
  have lo: "?m \<le> x" using assms(1) by simp
  have hi: "x \<le> ?M" using assms(1) by simp
  from assms(2) have "is_finite (fl (?M - ?m))" by (simp add: mx mn)
  from fl_finite [OF this] have d: "fl (?M - ?m) = Num (b64 (?M - ?m))"
    "b64 (?M - ?m) < 2 ^ 1024" by simp_all
  have a: "0 \<le> x - ?m" "x - ?m \<le> ?M - ?m" using lo hi by simp_all
  from fl_between [OF a d(2)] have n: "fl (x - ?m) = Num (b64 (x - ?m))"
    "0 \<le> b64 (x - ?m)" "b64 (x - ?m) \<le> b64 (?M - ?m)" by simp_all
  show ?thesis
  proof (cases "b64 (?M - ?m) = 0")
    case True
    with n(2,3) have z: "b64 (x - ?m) = 0" by simp
    have "heatmap_range (map Num xs) = Num 1"
      by (simp add: heatmap_range_def js_or_def mx mn d(1) True)
    then have "normalized (map Num xs) (Num x) = fl 0"
      by (simp add: normalized_def mn n(1) z)
    then show ?thesis by (simp add: fl_def Let_def)
  next
    case False
    with n(2,3) have pos: "0 < b64 (?M - ?m)" by linarith
    have r: "heatmap_range (map Num xs) = Num (b64 (?M - ?m))"
      using False by (simp add: heatmap_range_def js_or_def mx mn d(1))
    have q: "0 \<le> b64 (x - ?m) / b64 (?M - ?m)" "b64 (x - ?m) / b64 (?M - ?m) \<le> 1"
      using n(2,3) pos by simp_all
    have one: "b64 1 < 2 ^ 1024" by (simp add: b64_1)
    from fl_between [OF q one]
    have "fl (b64 (x - ?m) / b64 (?M - ?m)) = Num (b64 (b64 (x - ?m) / b64 (?M - ?m)))"
      "0 \<le> b64 (b64 (x - ?m) / b64 (?M - ?m))" "b64 (b64 (x - ?m) / b64 (?M - ?m)) \<le> 1"
      by (simp_all add: b64_1)
    moreover have "normalized (map Num xs) (Num x) = fl (b64 (x - ?m) / b64 (?M - ?m))"
      using False by (simp add: normalized_def mn n(1) r)
    ultimately show ?thesis by simp
  qed
qed

lemma uniform_heatmap_cells:
  "normalized_cells (Flat [Num 7, Num 7, Num 7]) = Some [Num 0, Num 0, Num 0]"
proof -
  have z: "fl 0 = Num 0" by (simp add: fl_def Let_def)
  show ?thesis
    by (simp add: normalized_cells_def normalized_def heatmap_range_def Math_max_def
        Math_min_def js_or_def z)
qed

lemma fl_overflow: "fl (2 ^ 1023 - - (2 ^ 1023)) = PosInf"
proof -
  have "b64 (2 ^ 1023 - - (2 ^ 1023)) = 2 ^ 1024"
    using b64_eval [of 1024 "2 ^ 1023 - - (2 ^ 1023)"] by (simp add: pow2_def)
  then show ?thesis by (simp add: fl_def Let_def)
qed

text \<open>
  C9 (as the code has it). For every non-empty heatmap rendered by ELAHeatmapVisual the
  divisor \<open>range = (max - min) || 1\<close> is never zero, also when all heatmap values are
  equal; and when the heatmap values are finite numbers and \<open>max - min\<close> does not
  overflow, every normalised cell \<open>(value - min) / range\<close> is a finite number between 0
  and 1.
\<close>

theorem normalized_cells_finite:
  assumes "heatmap_length h \<noteq> 0"
  shows "heatmap_range (flatData h) \<noteq> Num 0
       \<and> (list_all is_finite (flatData h)
            \<and> is_finite (js_sub (Math_max (flatData h)) (Math_min (flatData h))) \<longrightarrow>
           (\<exists>cells. normalized_cells h = Some cells
             \<and> length cells = length (flatData h)
             \<and> list_all is_finite cells \<and> list_all in_unit_interval cells))"
proof (intro conjI impI)
  show "heatmap_range (flatData h) \<noteq> Num 0" by (rule heatmap_range_nonzero)
next
  assume fin: "list_all is_finite (flatData h)
      \<and> is_finite (js_sub (Math_max (flatData h)) (Math_min (flatData h)))"
  from all_finite_map [of "flatData h"] fin obtain xs where xs: "flatData h = map Num xs"
    by blast
  have u: "list_all in_unit_interval (map (normalized (flatData h)) (flatData h))"
    using fin unfolding xs by (simp add: list_all_iff normalized_unit)
  have f: "in_unit_interval v \<Longrightarrow> is_finite v" for v by (cases v) auto
  from u have "list_all is_finite (map (normalized (flatData h)) (flatData h))"
    by (auto simp: list_all_iff intro: f)
  with u assms show "\<exists>cells. normalized_cells h = Some cells
             \<and> length cells = length (flatData h)
             \<and> list_all is_finite cells \<and> list_all in_unit_interval cells"
    by (simp add: normalized_cells_def)
qed

theorem normalized_cells_finite_witness:
  "heatmap_range (flatData (Flat [Num 7, Num 7, Num 7])) = Num 1
   \<and> normalized_cells (Flat [Num 7, Num 7, Num 7]) = Some [Num 0, Num 0, Num 0]
   \<and> (\<exists>cells. normalized_cells (Flat [Num 7, Num 7, Num 7]) = Some cells
         \<and> length cells = length (flatData (Flat [Num 7, Num 7, Num 7]))
         \<and> list_all is_finite cells \<and> list_all in_unit_interval cells)"
proof -
  have z: "fl 0 = Num 0" by (simp add: fl_def Let_def)
  have h1: "heatmap_length (Flat [Num 7, Num 7, Num 7]) \<noteq> 0" by simp
  have h2: "list_all is_finite (flatData (Flat [Num 7, Num 7, Num 7]))
      \<and> is_finite (js_sub (Math_max (flatData (Flat [Num 7, Num 7, Num 7])))
            (Math_min (flatData (Flat [Num 7, Num 7, Num 7]))))"
    by (simp add: Math_max_def Math_min_def z)
  have r: "heatmap_range (flatData (Flat [Num 7, Num 7, Num 7])) = Num 1"
    by (simp add: heatmap_range_def Math_max_def Math_min_def js_or_def z)
  from normalized_cells_finite [OF h1] h2
  have "\<exists>cells. normalized_cells (Flat [Num 7, Num 7, Num 7]) = Some cells
         \<and> length cells = length (flatData (Flat [Num 7, Num 7, Num 7]))
         \<and> list_all is_finite cells \<and> list_all in_unit_interval cells"
    by blast
  with r uniform_heatmap_cells show ?thesis by blast
qed

text \<open>
  C9 as stated (every normalised value finite, for every non-empty heatmap array) fails:
  for the two finite values \<open>2^1023\<close> and \<open>-2^1023\<close> the difference \<open>max - min\<close>
  overflows to infinity and the first cell is \<open>Infinity/Infinity\<close>, and a heatmap that
  holds NaN has only NaN cells.
\<close>

theorem normalized_cells_counterexample:
  "normalized_cells (Flat [Num (2 ^ 1023), Num (- (2 ^ 1023))]) = Some [NaN, Num 0]
   \<and> normalized_cells (Flat [NaN, Num 1]) = Some [NaN, NaN]"
proof -
  have z: "fl 0 = Num 0" by (simp add: fl_def Let_def)
  have s0: "js_sub (Num (- (2 ^ 1023))) (Num (- (2 ^ 1023))) = Num 0"
    using z by simp
  show ?thesis
    using fl_overflow s0
    by (simp add: normalized_cells_def normalized_def heatmap_range_def Math_max_def
        Math_min_def js_or_def)
qed

subsection \<open>Listed regions\<close>

lemma set_sort_insert: "set (sort_insert cmp a bs) = insert a (set bs)"
  by (induction bs) auto

lemma mset_sort_insert: "mset (sort_insert cmp a bs) = add_mset a (mset bs)"
  by (induction bs) auto

lemma mset_Array_sort: "mset (Array_sort cmp as) = mset as"
  by (induction as) (auto simp: mset_sort_insert)

lemma sorted_sort_insert:
  "sorted_wrt (\<lambda>a b. severity b \<le> severity a) bs \<Longrightarrow>
   sorted_wrt (\<lambda>a b. severity b \<le> severity a) (sort_insert by_severity_desc a bs)"
proof (induction bs)
  case Nil
  then show ?case by simp
next
  case (Cons b bs)
  show ?case
  proof (cases "by_severity_desc a b \<le> 0")
    case True
    then have "severity b \<le> severity a" by (simp add: by_severity_desc_def)
    with Cons.prems True show ?thesis by fastforce
  next
    case False
    then have "severity a \<le> severity b" by (simp add: by_severity_desc_def)
    with Cons False show ?thesis by (auto simp: set_sort_insert)
  qed
qed

lemma sorted_Array_sort:
  "sorted_wrt (\<lambda>a b. severity b \<le> severity a) (Array_sort by_severity_desc rs)"
  by (induction rs) (auto intro: sorted_sort_insert)

lemma filter_sort_insert:
  "sorted_wrt (\<lambda>a b. severity b \<le> severity a) bs \<Longrightarrow>
   filter (\<lambda>r. severity r = s) (sort_insert by_severity_desc a bs)
     = filter (\<lambda>r. severity r = s) (a # bs)"
proof (induction bs)
  case Nil
  then show ?case by simp
next
  case (Cons b bs)
  show ?case
  proof (cases "by_severity_desc a b \<le> 0")
    case True
    then show ?thesis by simp
  next
    case False
    then have lt: "severity a < severity b" by (simp add: by_severity_desc_def)
    from Cons have IH: "filter (\<lambda>r. severity r = s) (sort_insert by_severity_desc a bs)
       = filter (\<lambda>r. severity r = s) (a # bs)" by simp
    show ?thesis
    proof (cases "severity a = s")
      case True
      with lt have "severity b \<noteq> s" by simp
      with False IH show ?thesis by simp
    next
      case F2: False
      with False IH show ?thesis by simp
    qed
  qed
qed

lemma filter_Array_sort:
  "filter (\<lambda>r. severity r = s) (Array_sort by_severity_desc rs) = filter (\<lambda>r. severity r = s) rs"
  by (induction rs) (simp_all add: filter_sort_insert sorted_Array_sort)



subsection \<open>Flat progress records\<close>

lemma coerce_value_primitive: "isinstance_primitive (coerce_value env v)"
  by (simp add: coerce_value_def)

lemma flat_update:
  "flat_record ev \<Longrightarrow> isinstance_primitive v \<Longrightarrow> flat_record (AList.update k v ev)"
  unfolding flat_record_def by (induction ev) (auto simp: AList.update.simps)

lemma flat_add_detail_fields:
  "flat_record ud \<Longrightarrow> flat_record (add_detail_fields env items ud)"
  unfolding add_detail_fields_def
proof (induction items arbitrary: ud)
  case Nil
  then show ?case by simp
next
  case (Cons kv items)
  obtain k v where kv: "kv = (k, v)" by (cases kv)
  have "flat_record (AList.update (''progress_detail_'' @ k) (coerce_value env v) ud)"
    by (rule flat_update [OF Cons.prems coerce_value_primitive])
  from Cons.IH [OF this] show ?case by (simp add: kv)
qed

text \<open>
  C5. Every record the emitter hands to the store is flat: each of its values, the
  \<open>progress_detail_*\<close> values included, is a string, a number or a boolean; a detail
  value of any other kind has been replaced by its string form.
\<close>

theorem emit_progress_flat:
  assumes "emit_progress env now1 now2 agent stage message progress details = Inr update_data"
  shows "flat_record update_data"
proof -
  have base: "flat_record
      [(''progress_agent'', PStr a), (''progress_stage'', PStr b), (''progress_message'', PStr c),
       (''progress_percentage'', PInt p), (''progress_timestamp'', PStr d),
       (''last_updated'', PStr e)]" for a b c p d e
    by (simp add: flat_record_def)
  from assms show ?thesis
    by (auto simp: emit_progress_def Let_def base flat_add_detail_fields
        split: sum.splits if_splits pyval.splits)
qed

lemma emit_progress_defined:
  assumes "py_int env progress = Inr pct"
    and "sanitize_for_firebase env details = Inl e
         \<or> (\<exists>kvs. sanitize_for_firebase env details = Inr (PDict kvs))
         \<or> \<not> py_truthy details"
  shows "\<exists>update_data. emit_progress env now1 now2 agent stage message progress details
           = Inr update_data"
  using assms
  by (auto simp: emit_progress_def sanitize_details_def Let_def split: sum.splits pyval.splits)

theorem emit_progress_flat_witness:
  "emit_progress sample_builtins ''2025-11-21T10:00:00'' ''2025-11-21T10:00:01''
      (PStr ''forensic'') (PStr ''ela_analysis'') (PStr ''Running ELA heatmap analysis...'')
      (PInt 55) sample_details = Inr sample_event
   \<and> flat_record sample_event"
proof -
  have e: "emit_progress sample_builtins ''2025-11-21T10:00:00'' ''2025-11-21T10:00:01''
      (PStr ''forensic'') (PStr ''ela_analysis'') (PStr ''Running ELA heatmap analysis...'')
      (PInt 55) sample_details = Inr sample_event"
    by (simp add: emit_progress_def sanitize_details_def sample_builtins_def coerce_value_def
        add_detail_fields_def sample_details_def sample_event_def Let_def AList.update.simps)
  from emit_progress_flat [OF e] e show ?thesis by simp
qed

subsection \<open>Scorer and verdict band\<close>

lemma signal_bounds: "0 \<le> signal_of fs d \<and> signal_of fs d \<le> 1"
  by (simp add: signal_of_def normalized_signal_def split: option.split)

lemma weighted_sum_expand:
  "weighted_sum fs = 40 * signal_of fs CloneDetection + 40 * signal_of fs ELA
     + 30 * signal_of fs NoisePattern + 20 * signal_of fs CompressionArtifact"
  by (simp add: weighted_sum_def point_budgets_def contribution_def)

lemma weighted_sum_nonneg: "0 \<le> weighted_sum fs"
  using signal_bounds [of fs CloneDetection] signal_bounds [of fs ELA]
    signal_bounds [of fs NoisePattern] signal_bounds [of fs CompressionArtifact]
  by (simp add: weighted_sum_expand)

lemma manipulation_score_range:
  "0 \<le> manipulation_score_of fs \<and> manipulation_score_of fs \<le> 100"
proof -
  have "0 \<le> capped_score fs" using weighted_sum_nonneg by (simp add: capped_score_def)
  moreover have "capped_score fs \<le> 100" by (simp add: capped_score_def)
  ultimately show ?thesis unfolding manipulation_score_of_def by (simp add: floor_le_iff)
qed

text \<open>
  C3. The manipulation score is the sum, capped at 100, of the per-detector contributions,
  each a normalised signal scaled to its own point budget: clone detection contributes at
  most 40 points, ELA at most 40, noise inconsistency at most 30 and compression anomalies
  at most 20, for every combination of detector findings.
\<close>

theorem score_weighted_capped:
  "capped_score fs = min 100 (40 * signal_of fs CloneDetection + 40 * signal_of fs ELA
       + 30 * signal_of fs NoisePattern + 20 * signal_of fs CompressionArtifact)
   \<and> 0 \<le> contribution fs (CloneDetection, 40) \<and> contribution fs (CloneDetection, 40) \<le> 40
   \<and> 0 \<le> contribution fs (ELA, 40) \<and> contribution fs (ELA, 40) \<le> 40
   \<and> 0 \<le> contribution fs (NoisePattern, 30) \<and> contribution fs (NoisePattern, 30) \<le> 30
   \<and> 0 \<le> contribution fs (CompressionArtifact, 20)
   \<and> contribution fs (CompressionArtifact, 20) \<le> 20
   \<and> weighted_sum fs = contribution fs (CloneDetection, 40) + contribution fs (ELA, 40)
       + contribution fs (NoisePattern, 30) + contribution fs (CompressionArtifact, 20)
   \<and> capped_score fs \<le> 100
   \<and> manipulation_score_of fs = \<lfloor>capped_score fs\<rfloor> \<and> manipulation_score_of fs \<le> 100"
  using signal_bounds [of fs CloneDetection] signal_bounds [of fs ELA]
    signal_bounds [of fs NoisePattern] signal_bounds [of fs CompressionArtifact]
    manipulation_score_range [of fs]
  by (simp add: capped_score_def weighted_sum_expand contribution_def manipulation_score_of_def)

text \<open>
  C2. The verdict band is a fixed function of the final score: authentic below 20, unclear
  from 20 to 39, suspicious from 40 to 69, fraudulent from 70 on. The summary banner of
  the findings display uses the same thresholds 70 and 40 for its border.
\<close>

theorem band_thresholds:
  "(band_of_score s = Authentic \<longleftrightarrow> s < 20)
   \<and> (band_of_score s = Unclear \<longleftrightarrow> 20 \<le> s \<and> s \<le> 39)
   \<and> (band_of_score s = Suspicious \<longleftrightarrow> 40 \<le> s \<and> s \<le> 69)
   \<and> (band_of_score s = Fraudulent \<longleftrightarrow> 70 \<le> s)
   \<and> (summary_border (real_of_int s) = border_l_red_500 \<longleftrightarrow> band_of_score s = Fraudulent)
   \<and> (summary_border (real_of_int s) = border_l_yellow_500 \<longleftrightarrow> band_of_score s = Suspicious)
   \<and> (summary_border (real_of_int s) = border_l_green_500
        \<longleftrightarrow> band_of_score s = Authentic \<or> band_of_score s = Unclear)"
  by (simp add: band_of_score_def summary_border_def)

lemma full_signals_capped:
  "weighted_sum
     [\<lparr>detector_name = CloneDetection, error_map = [], regions = [], confidence = 1,
       explanatory_note = None\<rparr>,
      \<lparr>detector_name = ELA, error_map = [], regions = [], confidence = 1,
       explanatory_note = None\<rparr>,
      \<lparr>detector_name = NoisePattern, error_map = [], regions = [], confidence = 1,
       explanatory_note = None\<rparr>,
      \<lparr>detector_name = CompressionArtifact, error_map = [], regions = [], confidence = 1,
       explanatory_note = None\<rparr>] = 130
   \<and> manipulation_score_of
     [\<lparr>detector_name = CloneDetection, error_map = [], regions = [], confidence = 1,
       explanatory_note = None\<rparr>,
      \<lparr>detector_name = ELA, error_map = [], regions = [], confidence = 1,
       explanatory_note = None\<rparr>,
      \<lparr>detector_name = NoisePattern, error_map = [], regions = [], confidence = 1,
       explanatory_note = None\<rparr>,
      \<lparr>detector_name = CompressionArtifact, error_map = [], regions = [], confidence = 1,
       explanatory_note = None\<rparr>] = 100"
  by (simp add: manipulation_score_of_def capped_score_def weighted_sum_expand signal_of_def
      normalized_signal_def)

subsection \<open>Runs of the engine\<close>

lemma find_unique:
  "distinct (map key xs) \<Longrightarrow> x \<in> set xs \<Longrightarrow> find (\<lambda>f. key f = key x) xs = Some x"
  by (induction xs) (auto simp: image_iff)

lemma find_by_key_permuted:
  assumes "distinct (map key xs)" and "mset xs = mset ys"
  shows "find (\<lambda>f. key f = d) xs = find (\<lambda>f. key f = d) ys"
proof -
  have s: "set xs = set ys" using assms(2) by (rule mset_eq_setD)
  have "mset (map key xs) = mset (map key ys)" using assms(2) by (metis mset_map)
  then have dy: "distinct (map key ys)" using assms(1) by (metis mset_eq_imp_distinct_iff)
  show ?thesis
  proof (cases "\<exists>x \<in> set xs. key x = d")
    case True
    then obtain x where x: "x \<in> set xs" "key x = d" by blast
    from find_unique [OF assms(1) x(1)] find_unique [OF dy] x s show ?thesis by auto
  next
    case False
    then have "find (\<lambda>f. key f = d) xs = None" by (simp add: find_None_iff)
    moreover from False s have "find (\<lambda>f. key f = d) ys = None" by (simp add: find_None_iff)
    ultimately show ?thesis by simp
  qed
qed

lemma score_permuted:
  assumes "distinct (map detector_name fs)" and "mset fs = mset fs'"
  shows "manipulation_score_of fs = manipulation_score_of fs'"
proof -
  have "signal_of fs d = signal_of fs' d" for d
    unfolding signal_of_def using find_by_key_permuted [OF assms, of d] by simp
  then show ?thesis
    by (simp add: manipulation_score_of_def capped_score_def weighted_sum_expand)
qed

lemma run_analyzer_name: "detector_name (run_analyzer cfg env d analyze img) = d"
  by (simp add: run_analyzer_def failed_finding_def split: analyzer_outcome.split)

lemma mset_settle_order: "mset (settle_order cfg env) = mset (analyzers cfg)"
  by (simp add: settle_order_def)

lemma names_collect_findings:
  "map detector_name (collect_findings cfg env img) = map fst (settle_order cfg env)"
  by (simp add: collect_findings_def run_analyzer_name comp_def)

lemma distinct_collect_findings:
  assumes "distinct (map fst (analyzers cfg))"
  shows "distinct (map detector_name (collect_findings cfg env img))"
proof -
  have "mset (map fst (settle_order cfg env)) = mset (map fst (analyzers cfg))"
    using mset_settle_order [of cfg env] by (metis mset_map)
  then have "distinct (map fst (settle_order cfg env))"
    using assms by (metis mset_eq_imp_distinct_iff)
  then show ?thesis by (simp add: names_collect_findings)
qed

lemma mset_collect_findings:
  assumes "\<forall>da \<in> set (analyzers cfg). times_out cfg env (fst da) = times_out cfg env' (fst da)"
  shows "mset (collect_findings cfg env img) = mset (collect_findings cfg env' img)"
proof -
  have eq: "run_analyzer cfg env (fst da) (snd da) img = run_analyzer cfg env' (fst da) (snd da) img"
    if "da \<in> set (analyzers cfg)" for da
    using assms that by (simp add: run_analyzer_def)
  have "mset (collect_findings cfg env img)
      = image_mset (\<lambda>da. run_analyzer cfg env (fst da) (snd da) img) (mset (analyzers cfg))"
    by (simp add: collect_findings_def mset_settle_order)
  also have "\<dots> = image_mset (\<lambda>da. run_analyzer cfg env' (fst da) (snd da) img)
      (mset (analyzers cfg))"
    by (rule image_mset_cong) (simp add: eq)
  also have "\<dots> = mset (collect_findings cfg env' img)"
    by (simp add: collect_findings_def mset_settle_order)
  finally show ?thesis .
qed

lemma run_analysis_valid:
  assumes "normalize cfg bytes (max_dimension cfg) = Inr img" and "fatal_event env = None"
  shows "run_analysis cfg env ctx bytes =
     Inr \<lparr>manipulation_score = manipulation_score_of (collect_findings cfg env img),
          verdict_band = band_of_score (manipulation_score_of (collect_findings cfg env img)),
          heatmap = fst (aggregate cfg (collect_findings cfg env img)),
          suspicious_regions = snd (aggregate cfg (collect_findings cfg env img)),
          findings = map (forensic_finding cfg ctx (collect_findings cfg env img))
                       (collect_findings cfg env img)\<rparr>"
  using assms by (simp add: run_analysis_def Let_def split: prod.split)

lemma final_state_analyzers:
  "final_state (run_analysis (cfg\<lparr>analyzers := as\<rparr>) env ctx bytes)
     = final_state (run_analysis cfg env ctx bytes)"
  by (simp add: run_analysis_def final_state_def Let_def split: sum.split option.split prod.split)

lemma failed_analyzer_recorded:
  assumes "(d, analyze) \<in> set (analyzers cfg)"
    and "analyze img = Fails \<or> times_out cfg env d"
  shows "\<exists>e. failed_finding d e \<in> set (collect_findings cfg env img)"
proof -
  from assms(2) have "\<exists>e. run_analyzer cfg env d analyze img = failed_finding d e"
    by (auto simp: run_analyzer_def)
  then obtain e where e: "run_analyzer cfg env d analyze img = failed_finding d e" by blast
  have "(d, analyze) \<in> set (settle_order cfg env)"
    using assms(1) mset_settle_order [of cfg env] by (metis mset_eq_setD)
  then have "run_analyzer cfg env d analyze img \<in> set (collect_findings cfg env img)"
    by (force simp: collect_findings_def)
  with e show ?thesis by auto
qed


lemma sample_names_distinct: "distinct (map fst (analyzers sample_config))"
  by (simp add: sample_config_def)

lemma sample_loads:
  "normalize sample_config sample_bytes (max_dimension sample_config) = Inr sample_bytes"
  by (simp add: sample_config_def sample_bytes_def)

lemma findings_all_in_time:
  "collect_findings sample_config all_in_time sample_bytes =
     [sample_finding ELA (1 / 2), sample_finding CloneDetection 1,
      failed_finding NoisePattern AnalyzerError]"
  by (simp add: collect_findings_def settle_order_def sample_config_def all_in_time_def
      run_analyzer_def times_out_def sample_finding_def)

lemma findings_clone_last:
  "collect_findings sample_config clone_in_time_last sample_bytes =
     [sample_finding ELA (1 / 2), failed_finding NoisePattern AnalyzerError,
      sample_finding CloneDetection 1]"
  by (simp add: collect_findings_def settle_order_def sample_config_def clone_in_time_last_def
      run_analyzer_def times_out_def sample_finding_def)

lemma findings_clone_times_out:
  "collect_findings sample_config clone_times_out sample_bytes =
     [sample_finding ELA (1 / 2), failed_finding NoisePattern AnalyzerError,
      failed_finding CloneDetection TimeoutError]"
  by (simp add: collect_findings_def settle_order_def sample_config_def clone_times_out_def
      run_analyzer_def times_out_def sample_finding_def)

lemma score_all_in_time:
  "manipulation_score_of (collect_findings sample_config all_in_time sample_bytes) = 60"
  by (simp add: findings_all_in_time manipulation_score_of_def capped_score_def
      weighted_sum_expand signal_of_def normalized_signal_def failed_finding_def
      sample_finding_def)

lemma score_clone_times_out:
  "manipulation_score_of (collect_findings sample_config clone_times_out sample_bytes) = 20"
  by (simp add: findings_clone_times_out manipulation_score_of_def capped_score_def
      weighted_sum_expand signal_of_def normalized_signal_def failed_finding_def
      sample_finding_def)





end
